theory Spec2Isabelle
  imports Complex_Main "HOL-Library.Product_Lexorder"
begin

section \<open>Camera selection by reprojection error\<close>

text \<open>
  A shallow embedding of \<^verbatim>\<open>CameraErrorSelector\<close>
  (\<^verbatim>\<open>xrmocap/ops/triangulation/point_selection/camera_error_selector.py\<close>).

  Conventions of the embedding:
  \<^item> A floating-point number is either \<open>NaN\<close> or an exact rational \<open>Val x\<close>; rounding and
    infinities are not modelled.
  \<^item> A tensor whose leading axis is the view axis is a list of rows, one row per view, each
    row holding that view's entries flattened in C order (what \<^verbatim>\<open>reshape(n_view, -1)\<close>
    produces).
  \<^item> Exceptions are values of type \<open>error\<close>, returned on the left of a sum.
  \<^item> Logging and the calls to the triangulation service are recorded in a trace of events;
    arrays that are written in place live in a heap indexed by addresses.
\<close>

subsection \<open>Floating-point values and tensors\<close>

datatype fl = NaN | Val rat

type_synonym tensor = "fl list list"
type_synonym points = "fl list list list"
type_synonym points3d = "fl list list"

datatype error =
    ValueError            \<comment> \<open>\<^verbatim>\<open>raise ValueError\<close> in \<^verbatim>\<open>__init__\<close>\<close>
  | ShapeMismatchError    \<comment> \<open>raised by \<^verbatim>\<open>prepare_triangulate_input\<close>\<close>
  | ReshapeError          \<comment> \<open>numpy: cannot reshape array\<close>
  | KthOutOfBounds        \<comment> \<open>numpy: kth out of bounds, raised by \<^verbatim>\<open>argpartition\<close>\<close>
  | IndexError            \<comment> \<open>numpy: index out of bounds in fancy indexing\<close>

datatype event =
    LogError string
  | LogWarning string
  | LogInfo "nat list"
  | Triangulate
  | GetReprojectionError

subsection \<open>The numpy operations used by the selector\<close>

text \<open>\<^verbatim>\<open>np.abs\<close> on one entry: NaN stays NaN.\<close>

fun fl_abs :: "fl \<Rightarrow> fl" where
  "fl_abs NaN = NaN"
| "fl_abs (Val x) = Val \<bar>x\<bar>"

text \<open>The entries of a row that are not NaN.\<close>

fun fl_values :: "fl list \<Rightarrow> rat list" where
  "fl_values [] = []"
| "fl_values (NaN # xs) = fl_values xs"
| "fl_values (Val x # xs) = x # fl_values xs"

text \<open>\<^verbatim>\<open>np.nanmean\<close> of one row: the mean of the entries that are not NaN, and NaN when
  there is none.\<close>

definition nanmean_row :: "fl list \<Rightarrow> fl" where
  "nanmean_row xs =
     (let vs = fl_values xs
      in if vs = [] then NaN else Val (sum_list vs / of_nat (length vs)))"

text \<open>\<^verbatim>\<open>t.reshape(n, -1)\<close>: the entries in C order, cut into \<open>n\<close> rows of equal length.
  numpy raises when \<open>n\<close> is 0 or does not divide the number of entries.\<close>

fun chunks :: "nat \<Rightarrow> nat \<Rightarrow> 'a list \<Rightarrow> 'a list list" where
  "chunks 0 m xs = []"
| "chunks (Suc n) m xs = take m xs # chunks n m (drop m xs)"

definition reshape_views :: "nat \<Rightarrow> tensor \<Rightarrow> error + tensor" where
  "reshape_views n t =
     (let flat = concat t
      in if n = 0 \<or> length flat mod n \<noteq> 0 then Inl ReshapeError
         else Inr (chunks n (length flat div n) flat))"

text \<open>The order numpy sorts and partitions floats by: NaN after every number.\<close>

fun np_key :: "fl \<Rightarrow> bool \<times> rat" where
  "np_key NaN = (True, 0)"
| "np_key (Val x) = (False, x)"

fun np_le :: "fl \<Rightarrow> fl \<Rightarrow> bool" where
  "np_le x NaN = True"
| "np_le NaN (Val y) = False"
| "np_le (Val x) (Val y) = (x \<le> y)"

text \<open>The comparison \<^verbatim>\<open><\<close> of IEEE floats: false as soon as one side is NaN.\<close>

fun fl_less :: "fl \<Rightarrow> fl \<Rightarrow> bool" where
  "fl_less (Val x) (Val y) = (x < y)"
| "fl_less x y = False"

text \<open>
  \<^verbatim>\<open>np.argpartition(a, kth)\<close>. numpy documents the result, not the permutation its
  introselect picks among equal entries: a permutation of the indices of \<open>a\<close> such that the
  entry at position \<open>kth\<close> is where a sort would put it, no entry before it is larger and no
  entry after it is smaller. The selection routine is therefore a parameter \<open>ap\<close> of the
  model, \<open>argpartition_contract\<close> states what numpy documents of it, and
  \<open>argpartition_by_sort\<close> is one routine that meets the contract (a full stable argsort).
  A \<open>kth\<close> outside \<open>[-n, n)\<close> raises; a negative \<open>kth\<close> counts from the end.
\<close>

type_synonym argpartition = "fl list \<Rightarrow> nat \<Rightarrow> nat list"

definition argpartition_post :: "fl list \<Rightarrow> nat \<Rightarrow> nat list \<Rightarrow> bool" where
  "argpartition_post a kth p \<longleftrightarrow>
     distinct p \<and> set p = {..<length a} \<and>
     (\<forall>i<kth. np_le (a ! (p ! i)) (a ! (p ! kth))) \<and>
     (\<forall>i. kth < i \<and> i < length a \<longrightarrow> np_le (a ! (p ! kth)) (a ! (p ! i)))"

definition argpartition_contract :: "argpartition \<Rightarrow> bool" where
  "argpartition_contract ap \<longleftrightarrow> (\<forall>a kth. kth < length a \<longrightarrow> argpartition_post a kth (ap a kth))"

definition argpartition_by_sort :: argpartition where
  "argpartition_by_sort a kth = sort_key (\<lambda>i. np_key (a ! i)) [0..<length a]"

definition np_argpartition :: "argpartition \<Rightarrow> fl list \<Rightarrow> int \<Rightarrow> error + nat list" where
  "np_argpartition ap a kth =
     (let n = int (length a)
      in if kth < - n \<or> n \<le> kth then Inl KthOutOfBounds
         else Inr (ap a (nat (if kth < 0 then kth + n else kth))))"

text \<open>The slice \<^verbatim>\<open>xs[:k]\<close>; a negative \<open>k\<close> counts from the end.\<close>

definition slice_to :: "int \<Rightarrow> 'a list \<Rightarrow> 'a list" where
  "slice_to k xs = (if 0 \<le> k then take (nat k) xs else take (nat (int (length xs) + k)) xs)"

text \<open>Indexing an array with an array of indices, \<^verbatim>\<open>xs[idx]\<close>.\<close>

definition take_indices :: "'a list \<Rightarrow> nat list \<Rightarrow> error + 'a list" where
  "take_indices xs idx =
     (if list_all (\<lambda>i. i < length xs) idx then Inr (map (\<lambda>i. xs ! i) idx) else Inl IndexError)"

subsection \<open>Collaborators\<close>

text \<open>
  The triangulation service (\<^verbatim>\<open>BaseTriangulator\<close>, an external library): a black box
  with the two capabilities the selector calls.
\<close>

record triangulator =
  triangulate :: "points \<Rightarrow> tensor \<Rightarrow> points3d"
  get_reprojection_error :: "points \<Rightarrow> points3d \<Rightarrow> tensor \<Rightarrow> tensor"

text \<open>A tensor is dense: all its rows have the same length.\<close>

fun is_dense :: "'a list list \<Rightarrow> bool" where
  "is_dense [] = True"
| "is_dense (r # rs) = list_all (\<lambda>x. length x = length r) rs"

text \<open>
  Modelled from the spec: \<^verbatim>\<open>prepare_triangulate_input\<close> of
  \<^verbatim>\<open>xrmocap.utils.triangulation_utils\<close> is not among the sources. The spec has it
  normalise points and mask into dense tensors of consistent shape, default a missing mask to
  all ones, and raise on a camera-count mismatch or on incompatible shapes of points and
  mask. The mask has the shape of the points without their last (channel) axis.
\<close>

definition prepare_triangulate_input ::
  "nat \<Rightarrow> points \<Rightarrow> tensor option \<Rightarrow> error + points \<times> tensor" where
  "prepare_triangulate_input camera_number pts points_mask =
     (let msk = (case points_mask of None \<Rightarrow> map (map (\<lambda>_. Val 1)) pts | Some m \<Rightarrow> m)
      in if length pts \<noteq> camera_number \<or> \<not> is_dense pts \<or> map length msk \<noteq> map length pts
         then Inl ShapeMismatchError
         else Inr (pts, msk))"

text \<open>
  Modelled from the spec: \<^verbatim>\<open>get_valid_views_stats\<close> of
  \<^verbatim>\<open>xrmocap.utils.triangulation_utils\<close> is not among the sources. The spec has it
  summarise the number of valid observations of each view; only its logging is used.
\<close>

definition get_valid_views_stats :: "tensor \<Rightarrow> nat list" where
  "get_valid_views_stats points_mask =
     map (\<lambda>row. length (filter (\<lambda>x. x = Val 1) row)) points_mask"

subsection \<open>The selector object and the world it runs in\<close>

record selector =
  target_camera_number :: int
  triangulator :: triangulator
  verbose :: bool

text \<open>
  The world a method call runs in: the selector object itself, the heap of arrays with the
  next free address, and the trace of log entries and service calls.
\<close>

record world =
  self :: selector
  heap :: "nat \<Rightarrow> tensor"
  next_addr :: nat
  trace :: "event list"

definition emit :: "event \<Rightarrow> world \<Rightarrow> world" where
  "emit e w = w\<lparr>trace := trace w @ [e]\<rparr>"

definition new_array :: "tensor \<Rightarrow> world \<Rightarrow> nat \<times> world" where
  "new_array t w =
     (next_addr w, w\<lparr>heap := (heap w)(next_addr w := t), next_addr := Suc (next_addr w)\<rparr>)"

text \<open>\<^verbatim>\<open>a.copy()\<close>: a new array with the contents of the array at \<open>a\<close>.\<close>

definition array_copy :: "nat \<Rightarrow> world \<Rightarrow> nat \<times> world" where
  "array_copy a w = new_array (heap w a) w"

text \<open>\<^verbatim>\<open>a[view_index, ...] = 0\<close>: every entry of one view of the array at \<open>a\<close> becomes 0,
  in place.\<close>

definition set_view_zero :: "nat \<Rightarrow> nat \<Rightarrow> world \<Rightarrow> world" where
  "set_view_zero a view_index w =
     w\<lparr>heap := (heap w)(a := (heap w a)[view_index := map (\<lambda>_. Val 0) (heap w a ! view_index)])\<rparr>"

subsection \<open>\<^verbatim>\<open>CameraErrorSelector.__init__\<close>\<close>

text \<open>
  The triangulator argument is an instance or a config dict; \<^verbatim>\<open>build_triangulator\<close>
  (a registry lookup outside the sources) is the parameter \<open>build\<close>.
\<close>

datatype 'c triangulator_arg = Instance triangulator | Config 'c

definition CameraErrorSelector_init ::
  "('c \<Rightarrow> triangulator) \<Rightarrow> int \<Rightarrow> 'c triangulator_arg \<Rightarrow> bool \<Rightarrow> event list
     \<Rightarrow> (error + selector) \<times> event list" where
  "CameraErrorSelector_init build n tri vb tr =
     (if n \<ge> 2
      then (Inr \<lparr>target_camera_number = n,
                 triangulator = (case tri of Instance t \<Rightarrow> t | Config c \<Rightarrow> build c),
                 verbose = vb\<rparr>, tr)
      else (Inl ValueError,
            tr @ [LogError ''Arg target_camera_number must be no fewer than 2.'']))"

subsection \<open>\<^verbatim>\<open>get_camera_indexes\<close>\<close>

text \<open>Lines 154 to 156: the mean absolute error of each view, ignoring NaN.\<close>

definition mean_errors_of :: "nat \<Rightarrow> tensor \<Rightarrow> error + fl list" where
  "mean_errors_of n_view err =
     (case reshape_views n_view (map (map fl_abs) err) of
        Inl e \<Rightarrow> Inl e
      | Inr rows \<Rightarrow> Inr (map nanmean_row rows))"

text \<open>Lines 158 to 161: partition, keep the first \<open>target_camera_number\<close> positions, index
  \<open>remain_cameras\<close> with them and sort.\<close>

definition select_min_errors ::
  "argpartition \<Rightarrow> int \<Rightarrow> nat list \<Rightarrow> fl list \<Rightarrow> error + nat list" where
  "select_min_errors ap k remain_cameras mean_errors =
     (case np_argpartition ap mean_errors k of
        Inl e \<Rightarrow> Inl e
      | Inr part \<Rightarrow>
          (case take_indices remain_cameras (slice_to k part) of
             Inl e \<Rightarrow> Inl e
           | Inr chosen \<Rightarrow> Inr (sort chosen)))"

definition get_camera_indexes ::
  "argpartition \<Rightarrow> points \<Rightarrow> tensor option \<Rightarrow> world \<Rightarrow> (error + nat list) \<times> world" where
  "get_camera_indexes ap pts0 init_points_mask0 w =
     (case prepare_triangulate_input (length pts0) pts0 init_points_mask0 of
        Inl e \<Rightarrow> (Inl e, w)
      | Inr (pts, init_points_mask) \<Rightarrow>
          (let n_view = length init_points_mask;
               remain_cameras = [0..<n_view]
           in if n_view = 2
              then (Inr remain_cameras,
                    emit (LogWarning ''There's no potential to search a sub-triangulator according to n_view.'') w)
              else
                (let tri = triangulator (self w);
                     points3d = triangulate tri pts init_points_mask;
                     w1 = emit Triangulate w;
                     err = get_reprojection_error tri pts points3d init_points_mask;
                     w2 = emit GetReprojectionError w1
                 in case mean_errors_of n_view err of
                      Inl e \<Rightarrow> (Inl e, w2)
                    | Inr mean_errors \<Rightarrow>
                        (select_min_errors ap (target_camera_number (self w))
                           remain_cameras mean_errors, w2))))"

subsection \<open>\<^verbatim>\<open>get_selection_mask\<close>\<close>

text \<open>The loop of lines 91 to 93 over the view indices still to visit.\<close>

fun zero_rejected :: "nat \<Rightarrow> nat list \<Rightarrow> nat list \<Rightarrow> world \<Rightarrow> world" where
  "zero_rejected a selected_cameras [] w = w"
| "zero_rejected a selected_cameras (view_index # rest) w =
     zero_rejected a selected_cameras rest
       (if view_index \<notin> set selected_cameras then set_view_zero a view_index w else w)"

text \<open>
  The normalised mask is an array of its own (at \<open>next_addr w\<close>); the method copies it, zeroes
  the rejected views of the copy and returns the copy (its address).
\<close>

definition get_selection_mask ::
  "argpartition \<Rightarrow> points \<Rightarrow> tensor option \<Rightarrow> world \<Rightarrow> (error + nat) \<times> world" where
  "get_selection_mask ap pts0 init_points_mask0 w =
     (case prepare_triangulate_input (length pts0) pts0 init_points_mask0 of
        Inl e \<Rightarrow> (Inl e, w)
      | Inr (pts, m) \<Rightarrow>
          (let (init_points_mask, w1) = new_array m w
           in case get_camera_indexes ap pts (Some (heap w1 init_points_mask)) w1 of
                (Inl e, w2) \<Rightarrow> (Inl e, w2)
              | (Inr selected_cameras, w2) \<Rightarrow>
                  (let (points2d_mask, w3) = array_copy init_points_mask w2;
                       n_view = length (heap w3 points2d_mask);
                       w4 = zero_rejected points2d_mask selected_cameras [0..<n_view] w3;
                       w5 = (if verbose (self w4)
                             then emit (LogInfo (get_valid_views_stats (heap w4 points2d_mask))) w4
                             else w4)
                   in (Inr points2d_mask, w5))))"

text \<open>The array a call of \<open>get_selection_mask\<close> returned, read from the heap it left.\<close>

fun returned_mask :: "(error + nat) \<times> world \<Rightarrow> error + tensor" where
  "returned_mask (Inl e, w) = Inl e"
| "returned_mask (Inr a, w) = Inr (heap w a)"

subsection \<open>The quantities the claims speak of\<close>

text \<open>The error tensor of lines 148 to 153: what the service returns for the normalised
  input.\<close>

definition reprojection_error :: "selector \<Rightarrow> points \<Rightarrow> tensor \<Rightarrow> tensor" where
  "reprojection_error s pts m =
     get_reprojection_error (triangulator s) pts (triangulate (triangulator s) pts m) m"

text \<open>The value of \<^verbatim>\<open>mean_errors\<close> at line 155.\<close>

definition mean_errors :: "selector \<Rightarrow> points \<Rightarrow> tensor \<Rightarrow> error + fl list" where
  "mean_errors s pts m = mean_errors_of (length m) (reprojection_error s pts m)"

text \<open>What the service promises of the shape of its answer: the error tensor has the shape
  of the mask.\<close>

definition error_matches_mask :: "selector \<Rightarrow> points \<Rightarrow> tensor \<Rightarrow> bool" where
  "error_matches_mask s pts m \<longleftrightarrow> map length (reprojection_error s pts m) = map length m"

subsection \<open>A concrete service and world for the examples\<close>

text \<open>
  A stand-in for the service, used only to run the model on concrete inputs: the error of
  an observation is its first channel, and NaN where the mask is NaN.
\<close>

definition example_error :: "fl list \<Rightarrow> fl \<Rightarrow> fl" where
  "example_error p mk = (case mk of NaN \<Rightarrow> NaN | Val _ \<Rightarrow> (case p of [] \<Rightarrow> NaN | x # _ \<Rightarrow> x))"

definition example_triangulator :: triangulator where
  "example_triangulator =
     \<lparr>triangulate = (\<lambda>pts m. []),
      get_reprojection_error = (\<lambda>pts p3d m. map2 (map2 example_error) pts m)\<rparr>"

text \<open>A \<^verbatim>\<open>build_triangulator\<close> that builds the stand-in from the empty config.\<close>

definition example_build :: "unit \<Rightarrow> triangulator" where
  "example_build c = example_triangulator"

definition example_selector :: "int \<Rightarrow> bool \<Rightarrow> selector" where
  "example_selector k vb =
     \<lparr>target_camera_number = k, triangulator = example_triangulator, verbose = vb\<rparr>"

definition example_world :: "int \<Rightarrow> bool \<Rightarrow> world" where
  "example_world k vb =
     \<lparr>self = example_selector k vb, heap = (\<lambda>_. []), next_addr = 0, trace = []\<rparr>"

text \<open>One observation with first channel \<open>x\<close>.\<close>

definition pt :: "rat \<Rightarrow> fl list" where
  "pt x = [Val x, Val 0]"

section \<open>Properties\<close>

subsection \<open>Reshaping, normalisation and the order of floats\<close>

lemma chunks_concat: "\<forall>r\<in>set t. length r = m \<Longrightarrow> chunks (length t) m (concat t) = t"
  by (induction t) auto

lemma length_concat_const: "\<forall>r\<in>set t. length r = m \<Longrightarrow> length (concat t) = length t * m"
  by (induction t) auto

lemma is_dense_iff: "is_dense t \<longleftrightarrow> (\<exists>c. map length t = replicate (length t) c)"
proof (cases t)
  case Nil
  then show ?thesis by simp
next
  case (Cons r rs)
  have "list_all (\<lambda>x. length x = length r) rs \<longleftrightarrow> map length rs = replicate (length rs) (length r)"
    by (induction rs) auto
  with Cons show ?thesis by auto
qed

lemma is_dense_cong: "map length s = map length t \<Longrightarrow> is_dense s = is_dense t"
  by (metis is_dense_iff length_map)

lemma reshape_views_dense:
  assumes "is_dense t" "t \<noteq> []"
  shows "reshape_views (length t) t = Inr t"
proof -
  from assms(1) obtain c where c: "map length t = replicate (length t) c"
    by (auto simp: is_dense_iff)
  have rows: "\<forall>r\<in>set t. length r = c"
  proof
    fix r assume "r \<in> set t"
    then have "length r \<in> set (map length t)" by simp
    with c show "length r = c" by (metis in_set_replicate)
  qed
  have len: "length (concat t) = length t * c" by (rule length_concat_const [OF rows])
  from assms(2) have pos: "0 < length t" by simp
  show ?thesis
    using pos by (simp add: reshape_views_def len chunks_concat [OF rows])
qed

lemma np_le_key: "np_le x y \<longleftrightarrow> np_key x \<le> np_key y"
  by (cases x; cases y) (auto simp: less_eq_prod_def)

lemma np_le_refl: "np_le x x" by (cases x) auto
lemma np_le_trans: "np_le x y \<Longrightarrow> np_le y z \<Longrightarrow> np_le x z"
  by (simp add: np_le_key)
lemma fl_less_not_le: "fl_less x y \<Longrightarrow> \<not> np_le y x"
  by (cases x; cases y) auto

lemma argpartition_by_sort_post:
  assumes "kth < length a"
  shows "argpartition_post a kth (argpartition_by_sort a kth)"
proof -
  let ?f = "\<lambda>i. np_key (a ! i)"
  let ?p = "sort_key ?f [0..<length a]"
  have len: "length ?p = length a" by simp
  have srt: "sorted (map ?f ?p)" by (rule sorted_sort_key)
  have mono: "np_le (a ! (?p ! i)) (a ! (?p ! j))" if "i \<le> j" "j < length a" for i j
  proof -
    from that len have "map ?f ?p ! i \<le> map ?f ?p ! j"
      by (intro sorted_nth_mono [OF srt]) auto
    with that len show ?thesis by (simp add: np_le_key)
  qed
  have "distinct ?p" by simp
  moreover have "set ?p = {..<length a}" by auto
  moreover have "\<forall>i<kth. np_le (a ! (?p ! i)) (a ! (?p ! kth))"
    using mono assms by simp
  moreover have "\<forall>i. kth < i \<and> i < length a \<longrightarrow> np_le (a ! (?p ! kth)) (a ! (?p ! i))"
    using mono by simp
  ultimately show ?thesis
    unfolding argpartition_post_def argpartition_by_sort_def by blast
qed

lemma argpartition_by_sort_contract: "argpartition_contract argpartition_by_sort"
  by (simp add: argpartition_contract_def argpartition_by_sort_post)

lemma prepare_Inr:
  assumes "prepare_triangulate_input n pts0 mask0 = Inr (pts, m)"
  shows "pts = pts0" "length pts0 = n" "is_dense pts0" "map length m = map length pts0"
    "length m = n" "is_dense m"
    "m = (case mask0 of None \<Rightarrow> map (map (\<lambda>_. Val 1)) pts0 | Some m' \<Rightarrow> m')"
proof -
  let ?m = "case mask0 of None \<Rightarrow> map (map (\<lambda>_. Val 1)) pts0 | Some m' \<Rightarrow> m'"
  have cond: "\<not> (length pts0 \<noteq> n \<or> \<not> is_dense pts0 \<or> map length ?m \<noteq> map length pts0)"
  proof
    assume "length pts0 \<noteq> n \<or> \<not> is_dense pts0 \<or> map length ?m \<noteq> map length pts0"
    then have "prepare_triangulate_input n pts0 mask0 = Inl ShapeMismatchError"
      unfolding prepare_triangulate_input_def Let_def by (rule if_P)
    with assms show False by simp
  qed
  then have "prepare_triangulate_input n pts0 mask0 = Inr (pts0, ?m)"
    unfolding prepare_triangulate_input_def Let_def by (rule if_not_P)
  with assms have res: "pts = pts0" "m = ?m" by simp_all
  from res show "pts = pts0" and "m = ?m" by -
  from cond show "length pts0 = n" and "is_dense pts0" by blast+
  from cond res show ml: "map length m = map length pts0" by blast
  from ml have "length m = length pts0" by (rule map_eq_imp_length_eq)
  with cond show "length m = n" by blast
  from ml have "is_dense m = is_dense pts0" by (rule is_dense_cong)
  with cond show "is_dense m" by blast
qed

lemma prepare_idem:
  assumes "prepare_triangulate_input n pts0 mask0 = Inr (pts, m)"
  shows "prepare_triangulate_input (length pts) pts (Some m) = Inr (pts, m)"
proof -
  note p = prepare_Inr [OF assms]
  from p(1) p(3) have "is_dense pts" by simp
  moreover from p(1) p(4) have "map length m = map length pts" by simp
  ultimately show ?thesis by (simp add: prepare_triangulate_input_def)
qed

lemma mean_errors_of_dense:
  assumes "is_dense err" "err \<noteq> []"
  shows "mean_errors_of (length err) err = Inr (map (\<lambda>row. nanmean_row (map fl_abs row)) err)"
proof -
  let ?t = "map (map fl_abs) err"
  have "map length ?t = map length err" by simp
  then have "is_dense ?t" using assms(1) is_dense_cong by blast
  moreover have "?t \<noteq> []" using assms(2) by simp
  ultimately have "reshape_views (length ?t) ?t = Inr ?t" by (rule reshape_views_dense)
  then show ?thesis by (simp add: mean_errors_of_def comp_def)
qed

lemma mean_errors_Inr:
  assumes prep: "prepare_triangulate_input n pts0 mask0 = Inr (pts, m)"
    and shape: "error_matches_mask s pts m"
    and pos: "m \<noteq> []"
  shows "mean_errors s pts m =
           Inr (map (\<lambda>row. nanmean_row (map fl_abs row)) (reprojection_error s pts m))"
proof -
  let ?err = "reprojection_error s pts m"
  from shape have ml: "map length ?err = map length m" by (simp add: error_matches_mask_def)
  then have len: "length ?err = length m" by (rule map_eq_imp_length_eq)
  from ml have "is_dense ?err = is_dense m" by (rule is_dense_cong)
  with prepare_Inr(6) [OF prep] have "is_dense ?err" by blast
  moreover from len pos have "?err \<noteq> []" by auto
  ultimately have "mean_errors_of (length ?err) ?err =
      Inr (map (\<lambda>row. nanmean_row (map fl_abs row)) ?err)"
    by (rule mean_errors_of_dense)
  with len show ?thesis by (simp add: mean_errors_def)
qed

lemma select_min_errors_top_k:
  assumes contract: "argpartition_contract ap"
    and k: "0 \<le> k" "k < int (length errs)"
  shows "\<exists>idxs. select_min_errors ap k [0..<length errs] errs = Inr idxs \<and>
           sorted_wrt (<) idxs \<and> length idxs = nat k \<and> set idxs \<subseteq> {..<length errs} \<and>
           (\<forall>i\<in>set idxs. \<forall>j<length errs. j \<notin> set idxs \<longrightarrow> np_le (errs ! i) (errs ! j))"
proof -
  let ?n = "length errs"
  let ?k = "nat k"
  let ?p = "ap errs ?k"
  from k have kn: "?k < ?n" by simp
  with contract have post: "argpartition_post errs ?k ?p"
    by (simp add: argpartition_contract_def)
  then have dist: "distinct ?p" and setp: "set ?p = {..<?n}"
    and lo: "\<And>i. i < ?k \<Longrightarrow> np_le (errs ! (?p ! i)) (errs ! (?p ! ?k))"
    and hi: "\<And>i. ?k < i \<Longrightarrow> i < ?n \<Longrightarrow> np_le (errs ! (?p ! ?k)) (errs ! (?p ! i))"
    by (simp_all add: argpartition_post_def)
  from dist setp have lenp: "length ?p = ?n"
    by (metis card_lessThan distinct_card)
  let ?c = "take ?k ?p"
  have part: "np_argpartition ap errs k = Inr ?p"
    using k by (simp add: np_argpartition_def)
  have slice: "slice_to k ?p = ?c" using k by (simp add: slice_to_def)
  have sub: "set ?c \<subseteq> {..<?n}" using setp set_take_subset by fastforce
  then have idx: "take_indices [0..<?n] ?c = Inr ?c"
    by (auto simp: take_indices_def list_all_iff intro!: map_idI)
  have res: "select_min_errors ap k [0..<?n] errs = Inr (sort ?c)"
    by (simp add: select_min_errors_def part slice idx)
  have "distinct ?c" using dist by simp
  then have s1: "sorted_wrt (<) (sort ?c)"
    by (simp add: strict_sorted_iff)
  have s2: "length (sort ?c) = ?k" using lenp kn by simp
  have s3: "set (sort ?c) \<subseteq> {..<?n}" using sub by simp
  have s4: "np_le (errs ! i) (errs ! j)"
    if "i \<in> set (sort ?c)" "j < ?n" "j \<notin> set (sort ?c)" for i j
  proof -
    from that(1) obtain i' where i': "i' < ?k" "i = ?p ! i'"
      using lenp kn by (auto simp: in_set_conv_nth)
    from that(2) setp obtain j' where j': "j' < ?n" "j = ?p ! j'"
      using lenp by (metis in_set_conv_nth lessThan_iff)
    have "\<not> j' < ?k"
    proof
      assume "j' < ?k"
      then have "?p ! j' \<in> set ?c" using lenp kn by (auto simp: in_set_conv_nth)
      with that(3) j' show False by simp
    qed
    then have "j' = ?k \<or> ?k < j'" by auto
    then have "np_le (errs ! (?p ! ?k)) (errs ! j)"
      using hi j' by (auto simp: np_le_refl)
    with lo [OF i'(1)] i'(2) show ?thesis by (auto intro: np_le_trans)
  qed
  from res s1 s2 s3 s4 show ?thesis by blast
qed

subsection \<open>What a call of \<open>get_camera_indexes\<close> computes and leaves behind\<close>

lemma length_chunks: "length (chunks n m xs) = n"
  by (induction n arbitrary: xs) auto

lemma mean_errors_of_length:
  assumes "mean_errors_of n err = Inr me"
  shows "length me = n"
proof -
  from assms obtain rows where r: "reshape_views n (map (map fl_abs) err) = Inr rows"
    and me: "me = map nanmean_row rows"
    by (auto simp: mean_errors_of_def split: sum.splits)
  from r have "length rows = n"
    by (auto simp: reshape_views_def Let_def length_chunks split: if_splits)
  with me show ?thesis by simp
qed

lemma get_camera_indexes_two_views:
  assumes "prepare_triangulate_input (length pts0) pts0 mask0 = Inr (pts, m)"
    and "length m = 2"
  shows "get_camera_indexes ap pts0 mask0 w =
           (Inr [0, 1],
            emit (LogWarning ''There's no potential to search a sub-triangulator according to n_view.'') w)"
proof -
  have "[0..<2] = [0, Suc 0]" by (simp add: upt_rec)
  with assms show ?thesis by (simp add: get_camera_indexes_def)
qed

lemma get_camera_indexes_search:
  assumes "prepare_triangulate_input (length pts0) pts0 mask0 = Inr (pts, m)"
    and "length m \<noteq> 2"
  shows "get_camera_indexes ap pts0 mask0 w =
           ((case mean_errors (self w) pts m of
               Inl e \<Rightarrow> Inl e
             | Inr me \<Rightarrow> select_min_errors ap (target_camera_number (self w)) [0..<length m] me),
            emit GetReprojectionError (emit Triangulate w))"
  using assms
  by (simp add: get_camera_indexes_def Let_def mean_errors_def reprojection_error_def
        split: sum.split)

lemma get_camera_indexes_frame:
  "self (snd (get_camera_indexes ap pts0 mask0 w)) = self w \<and>
   heap (snd (get_camera_indexes ap pts0 mask0 w)) = heap w \<and>
   next_addr (snd (get_camera_indexes ap pts0 mask0 w)) = next_addr w"
proof (cases "prepare_triangulate_input (length pts0) pts0 mask0")
  case (Inl e)
  then show ?thesis by (simp add: get_camera_indexes_def)
next
  case (Inr pm)
  obtain pts m where pm: "pm = (pts, m)" by (cases pm)
  show ?thesis
  proof (cases "length m = 2")
    case True
    with Inr pm show ?thesis by (simp add: get_camera_indexes_two_views emit_def)
  next
    case False
    with Inr pm show ?thesis by (simp add: get_camera_indexes_search emit_def)
  qed
qed

lemma get_camera_indexes_fst_indep:
  assumes "self w1 = self w2"
  shows "fst (get_camera_indexes ap pts0 mask0 w1) = fst (get_camera_indexes ap pts0 mask0 w2)"
proof (cases "prepare_triangulate_input (length pts0) pts0 mask0")
  case (Inl e)
  then show ?thesis by (simp add: get_camera_indexes_def)
next
  case (Inr pm)
  obtain pts m where pm: "pm = (pts, m)" by (cases pm)
  show ?thesis
  proof (cases "length m = 2")
    case True
    with Inr pm show ?thesis by (simp add: get_camera_indexes_two_views)
  next
    case False
    from Inr pm have p: "prepare_triangulate_input (length pts0) pts0 mask0 = Inr (pts, m)"
      by simp
    show ?thesis
      unfolding get_camera_indexes_search [OF p False] fst_conv assms by (rule refl)
  qed
qed

lemma get_camera_indexes_normalised:
  assumes prep: "prepare_triangulate_input (length pts0) pts0 mask0 = Inr (pts, m)"
  shows "fst (get_camera_indexes ap pts (Some m) w) = fst (get_camera_indexes ap pts0 mask0 w)"
proof -
  note again = prepare_idem [OF prep]
  show ?thesis
  proof (cases "length m = 2")
    case True
    then show ?thesis
      by (simp add: get_camera_indexes_two_views [OF prep] get_camera_indexes_two_views [OF again])
  next
    case False
    then show ?thesis
      by (simp add: get_camera_indexes_search [OF prep] get_camera_indexes_search [OF again])
  qed
qed

lemma select_min_errors_kth_out:
  assumes "int (length errs) \<le> k"
  shows "select_min_errors ap k rc errs = Inl KthOutOfBounds"
  using assms by (simp add: select_min_errors_def np_argpartition_def)

subsection \<open>Construction\<close>

text \<open>
  C4. Constructing a selector with \<open>target_camera_number < 2\<close> raises at once: the result is
  the error, no selector object exists on which a method could be called, and the only event
  is the logged error. With \<open>target_camera_number \<ge> 2\<close> construction succeeds and the object
  stores the value.
\<close>

theorem init_checks_target_camera_number:
  "(n < 2 \<longrightarrow>
      CameraErrorSelector_init build n tri vb tr =
        (Inl ValueError, tr @ [LogError ''Arg target_camera_number must be no fewer than 2.''])) \<and>
   (2 \<le> n \<longrightarrow>
      (\<exists>s. CameraErrorSelector_init build n tri vb tr = (Inr s, tr) \<and>
           target_camera_number s = n))"
  by (simp add: CameraErrorSelector_init_def)

theorem init_checks_target_camera_number_witness:
  "CameraErrorSelector_init example_build 1 (Instance example_triangulator) True [] =
     (Inl ValueError, [LogError ''Arg target_camera_number must be no fewer than 2.'']) \<and>
   (\<exists>s. CameraErrorSelector_init example_build 2 (Config ()) True [] = (Inr s, []) \<and>
        target_camera_number s = 2)"
  using init_checks_target_camera_number
          [of 1 example_build "Instance example_triangulator" True "[]"]
        init_checks_target_camera_number
          [of 2 example_build "Config ()" True "[]"]
  by simp

subsection \<open>Two views\<close>

text \<open>
  C5. With two views (and an input the normalisation accepts) \<open>get_camera_indexes\<close> returns
  \<open>[0, 1]\<close> whatever the points, the mask, the target number and the selection routine are;
  it does not raise, the only event it adds is the warning, so the triangulation service is
  not called.
\<close>

theorem get_camera_indexes_two_views_keeps_both:
  assumes "prepare_triangulate_input (length pts0) pts0 mask0 = Inr (pts, m)"
    and "length pts0 = 2"
  shows "get_camera_indexes ap pts0 mask0 w =
           (Inr [0, 1],
            w\<lparr>trace := trace w @
               [LogWarning ''There's no potential to search a sub-triangulator according to n_view.'']\<rparr>)"
proof -
  from prepare_Inr(5) [OF assms(1)] assms(2) have "length m = 2" by simp
  from get_camera_indexes_two_views [OF assms(1) this] show ?thesis by (simp add: emit_def)
qed

theorem get_camera_indexes_two_views_keeps_both_witness:
  "get_camera_indexes argpartition_by_sort [[pt 7], [pt 100]] None (example_world 5 True) =
     (Inr [0, 1],
      (example_world 5 True)\<lparr>trace := trace (example_world 5 True) @
         [LogWarning ''There's no potential to search a sub-triangulator according to n_view.'']\<rparr>)"
proof -
  have h1: "prepare_triangulate_input (length [[pt 7], [pt 100]]) [[pt 7], [pt 100]] None =
      Inr ([[pt 7], [pt 100]], [[Val 1], [Val 1]])"
    by (simp add: prepare_triangulate_input_def)
  have h2: "length [[pt 7], [pt 100]] = 2" by simp
  show ?thesis by (rule get_camera_indexes_two_views_keeps_both [OF h1 h2])
qed

subsection \<open>One pass\<close>

text \<open>
  C8. With more than two views, one call of \<open>get_camera_indexes\<close> adds exactly two events to
  the trace: one call of \<open>triangulate\<close> followed by one call of \<open>get_reprojection_error\<close>.
  There is no second triangulation, whatever the outcome of the selection.
\<close>

theorem get_camera_indexes_one_triangulation:
  assumes "prepare_triangulate_input (length pts0) pts0 mask0 = Inr (pts, m)"
    and "2 < length pts0"
  shows "trace (snd (get_camera_indexes ap pts0 mask0 w)) =
           trace w @ [Triangulate, GetReprojectionError]"
proof -
  from prepare_Inr(5) [OF assms(1)] assms(2) have "length m \<noteq> 2" by simp
  from get_camera_indexes_search [OF assms(1) this] show ?thesis by (simp add: emit_def)
qed

theorem get_camera_indexes_one_triangulation_witness:
  "trace (snd (get_camera_indexes argpartition_by_sort [[pt 1], [pt 5], [pt 2]] None
                 (example_world 2 True))) =
     trace (example_world 2 True) @ [Triangulate, GetReprojectionError]"
proof -
  have h1: "prepare_triangulate_input (length [[pt 1], [pt 5], [pt 2]]) [[pt 1], [pt 5], [pt 2]] None =
      Inr ([[pt 1], [pt 5], [pt 2]], [[Val 1], [Val 1], [Val 1]])"
    by (simp add: prepare_triangulate_input_def)
  have h2: "2 < length [[pt 1], [pt 5], [pt 2]]" by simp
  show ?thesis by (rule get_camera_indexes_one_triangulation [OF h1 h2])
qed

subsection \<open>The target number equal to the number of views\<close>

text \<open>
  C10. With more than two views and \<open>target_camera_number\<close> equal to the number of views,
  \<open>get_camera_indexes\<close> raises instead of returning all view indices; when the service
  answers with an error tensor of the mask's shape the exception is the one of the partition
  step, whose \<open>kth\<close> equals the length of the array.
\<close>

theorem get_camera_indexes_all_views_raises:
  assumes "prepare_triangulate_input (length pts0) pts0 mask0 = Inr (pts, m)"
    and "2 < length pts0"
    and "target_camera_number (self w) = int (length pts0)"
  shows "(\<exists>e. fst (get_camera_indexes ap pts0 mask0 w) = Inl e) \<and>
         (error_matches_mask (self w) pts m \<longrightarrow>
            fst (get_camera_indexes ap pts0 mask0 w) = Inl KthOutOfBounds)"
proof -
  note len = prepare_Inr(5) [OF assms(1)]
  from len assms(2) have n2: "length m \<noteq> 2" by simp
  note run = get_camera_indexes_search [OF assms(1) n2, of ap w]
  have out: "fst (get_camera_indexes ap pts0 mask0 w) = Inl KthOutOfBounds"
    if "mean_errors (self w) pts m = Inr me" for me
  proof -
    from that have "length me = length m"
      by (simp add: mean_errors_def mean_errors_of_length)
    with len assms(3) have "int (length me) \<le> target_camera_number (self w)" by simp
    then show ?thesis using that by (simp add: run select_min_errors_kth_out)
  qed
  have first: "\<exists>e. fst (get_camera_indexes ap pts0 mask0 w) = Inl e"
  proof (cases "mean_errors (self w) pts m")
    case (Inl e)
    then show ?thesis by (simp add: run)
  next
    case (Inr me)
    from out [OF this] show ?thesis by blast
  qed
  have second: "fst (get_camera_indexes ap pts0 mask0 w) = Inl KthOutOfBounds"
    if "error_matches_mask (self w) pts m"
  proof -
    from len assms(2) have "m \<noteq> []" by auto
    from mean_errors_Inr [OF assms(1) that this] show ?thesis by (rule out)
  qed
  from first second show ?thesis by blast
qed

theorem get_camera_indexes_all_views_raises_witness:
  "fst (get_camera_indexes argpartition_by_sort [[pt 1], [pt 5], [pt 2]] None
          (example_world 3 True)) = Inl KthOutOfBounds"
proof -
  have h1: "prepare_triangulate_input (length [[pt 1], [pt 5], [pt 2]]) [[pt 1], [pt 5], [pt 2]] None =
      Inr ([[pt 1], [pt 5], [pt 2]], [[Val 1], [Val 1], [Val 1]])"
    by (simp add: prepare_triangulate_input_def)
  have h2: "2 < length [[pt 1], [pt 5], [pt 2]]" by simp
  have h3: "target_camera_number (self (example_world 3 True)) =
      int (length [[pt 1], [pt 5], [pt 2]])"
    by (simp add: example_world_def example_selector_def)
  have h4: "error_matches_mask (self (example_world 3 True)) [[pt 1], [pt 5], [pt 2]]
      [[Val 1], [Val 1], [Val 1]]"
    by (simp add: error_matches_mask_def reprojection_error_def example_world_def
          example_selector_def example_triangulator_def)
  from get_camera_indexes_all_views_raises [OF h1 h2 h3, of argpartition_by_sort] h4
  show ?thesis by blast
qed

subsection \<open>The loop that zeroes the rejected views\<close>

lemma set_view_zero_fields:
  "self (set_view_zero a v w) = self w"
  "next_addr (set_view_zero a v w) = next_addr w"
  "trace (set_view_zero a v w) = trace w"
  by (simp_all add: set_view_zero_def)

lemma zero_rejected_fields:
  "self (zero_rejected a sel vs w) = self w \<and>
   next_addr (zero_rejected a sel vs w) = next_addr w \<and>
   trace (zero_rejected a sel vs w) = trace w"
  by (induction vs arbitrary: w) (simp_all add: set_view_zero_fields)

lemma zero_rejected_other:
  "b \<noteq> a \<Longrightarrow> heap (zero_rejected a sel vs w) b = heap w b"
  by (induction vs arbitrary: w) (simp_all add: set_view_zero_def)

lemma zero_rejected_length:
  "length (heap (zero_rejected a sel vs w) a) = length (heap w a)"
  by (induction vs arbitrary: w) (simp_all add: set_view_zero_def)

lemma zero_rejected_nth:
  "v < length (heap w a) \<Longrightarrow>
   heap (zero_rejected a sel vs w) a ! v =
     (if v \<in> set vs \<and> v \<notin> set sel then map (\<lambda>_. Val 0) (heap w a ! v) else heap w a ! v)"
proof (induction vs arbitrary: w)
  case Nil
  then show ?case by simp
next
  case (Cons u vs)
  let ?w = "if u \<notin> set sel then set_view_zero a u w else w"
  have len: "length (heap ?w a) = length (heap w a)" by (simp add: set_view_zero_def)
  have row: "heap ?w a ! v =
      (if v = u \<and> u \<notin> set sel then map (\<lambda>_. Val 0) (heap w a ! v) else heap w a ! v)"
    using Cons.prems by (simp add: set_view_zero_def nth_list_update)
  from Cons.prems len have "v < length (heap ?w a)" by simp
  from Cons.IH [OF this]
  have "heap (zero_rejected a sel (u # vs) w) a ! v =
      (if v \<in> set vs \<and> v \<notin> set sel then map (\<lambda>_. Val 0) (heap ?w a ! v) else heap ?w a ! v)"
    by simp
  also have "\<dots> =
      (if v \<in> set (u # vs) \<and> v \<notin> set sel then map (\<lambda>_. Val 0) (heap w a ! v) else heap w a ! v)"
    unfolding row by (auto simp: comp_def)
  finally show ?case .
qed

subsection \<open>What a call of \<open>get_selection_mask\<close> computes and leaves behind\<close>

lemma get_selection_mask_prepare_raises:
  assumes "prepare_triangulate_input (length pts0) pts0 mask0 = Inl e"
  shows "get_selection_mask ap pts0 mask0 w = (Inl e, w)"
  using assms by (simp add: get_selection_mask_def)

lemma get_selection_mask_inner_call:
  assumes prep: "prepare_triangulate_input (length pts0) pts0 mask0 = Inr (pts, m)"
  shows "\<exists>w2. get_camera_indexes ap pts (Some m) (snd (new_array m w)) =
                (fst (get_camera_indexes ap pts0 mask0 w), w2) \<and>
              self w2 = self w \<and> heap w2 = (heap w)(next_addr w := m) \<and>
              next_addr w2 = Suc (next_addr w)"
proof -
  let ?w1 = "snd (new_array m w)"
  have w1: "self ?w1 = self w" "heap ?w1 = (heap w)(next_addr w := m)"
    "next_addr ?w1 = Suc (next_addr w)"
    by (simp_all add: new_array_def)
  let ?run = "get_camera_indexes ap pts (Some m) ?w1"
  have "fst ?run = fst (get_camera_indexes ap pts (Some m) w)"
    by (rule get_camera_indexes_fst_indep) (rule w1(1))
  also have "\<dots> = fst (get_camera_indexes ap pts0 mask0 w)"
    by (rule get_camera_indexes_normalised [OF prep])
  finally have res: "fst ?run = fst (get_camera_indexes ap pts0 mask0 w)" .
  from get_camera_indexes_frame [of ap pts "Some m" ?w1] w1
  have "self (snd ?run) = self w \<and> heap (snd ?run) = (heap w)(next_addr w := m) \<and>
      next_addr (snd ?run) = Suc (next_addr w)"
    by simp
  moreover from res have "?run = (fst (get_camera_indexes ap pts0 mask0 w), snd ?run)"
    by (metis prod.collapse)
  ultimately show ?thesis by blast
qed

lemma get_selection_mask_raises:
  assumes prep: "prepare_triangulate_input (length pts0) pts0 mask0 = Inr (pts, m)"
    and sel: "fst (get_camera_indexes ap pts0 mask0 w) = Inl e"
  shows "\<exists>w'. get_selection_mask ap pts0 mask0 w = (Inl e, w') \<and>
              heap w' (next_addr w) = m \<and> self w' = self w"
proof -
  from get_selection_mask_inner_call [OF prep, of ap w] sel
  obtain w2 where run: "get_camera_indexes ap pts (Some m) (snd (new_array m w)) = (Inl e, w2)"
    and w2: "self w2 = self w" "heap w2 = (heap w)(next_addr w := m)"
    by auto
  have na: "fst (new_array m w) = next_addr w" by (simp add: new_array_def)
  have h: "heap (snd (new_array m w)) (next_addr w) = m" by (simp add: new_array_def)
  have "get_selection_mask ap pts0 mask0 w = (Inl e, w2)"
    by (simp add: get_selection_mask_def prep split_def na h run)
  with w2 show ?thesis by simp
qed

lemma get_selection_mask_returns:
  assumes prep: "prepare_triangulate_input (length pts0) pts0 mask0 = Inr (pts, m)"
    and sel: "fst (get_camera_indexes ap pts0 mask0 w) = Inr sel"
  shows "\<exists>w'. get_selection_mask ap pts0 mask0 w = (Inr (Suc (next_addr w)), w') \<and>
              self w' = self w \<and>
              heap w' (next_addr w) = m \<and>
              length (heap w' (Suc (next_addr w))) = length m \<and>
              (\<forall>v<length m. heap w' (Suc (next_addr w)) ! v =
                 (if v \<in> set sel then m ! v else map (\<lambda>_. Val 0) (m ! v))) \<and>
              (\<forall>b. b \<noteq> next_addr w \<and> b \<noteq> Suc (next_addr w) \<longrightarrow> heap w' b = heap w b)"
proof -
  let ?a0 = "next_addr w"
  let ?a1 = "Suc (next_addr w)"
  from get_selection_mask_inner_call [OF prep, of ap w] sel
  obtain w2 where run: "get_camera_indexes ap pts (Some m) (snd (new_array m w)) = (Inr sel, w2)"
    and w2: "self w2 = self w" "heap w2 = (heap w)(?a0 := m)" "next_addr w2 = ?a1"
    by auto
  have na: "fst (new_array m w) = ?a0" by (simp add: new_array_def)
  have h: "heap (snd (new_array m w)) ?a0 = m" by (simp add: new_array_def)
  define w3 where "w3 = snd (array_copy ?a0 w2)"
  have copy: "array_copy ?a0 w2 = (?a1, w3)"
    by (simp add: w3_def array_copy_def new_array_def w2)
  have w3: "self w3 = self w" "heap w3 = (heap w)(?a0 := m, ?a1 := m)"
    by (simp_all add: w3_def array_copy_def new_array_def w2)
  define w4 where "w4 = zero_rejected ?a1 sel [0..<length m] w3"
  define w5 where "w5 = (if verbose (self w4)
      then emit (LogInfo (get_valid_views_stats (heap w4 ?a1))) w4 else w4)"
  have len3: "length (heap w3 ?a1) = length m" by (simp add: w3)
  have res: "get_selection_mask ap pts0 mask0 w = (Inr ?a1, w5)"
    by (simp add: get_selection_mask_def prep split_def na h run copy len3 w4_def w5_def Let_def)
  have heap5: "heap w5 = heap w4" and self5: "self w5 = self w4"
    by (simp_all add: w5_def emit_def)
  have self4: "self w4 = self w"
    using zero_rejected_fields [of ?a1 sel "[0..<length m]" w3] by (simp add: w4_def w3)
  have p1: "heap w5 ?a0 = m"
    by (simp add: heap5 w4_def zero_rejected_other w3)
  have p2: "length (heap w5 ?a1) = length m"
    by (simp add: heap5 w4_def zero_rejected_length w3)
  have p3: "heap w5 ?a1 ! v = (if v \<in> set sel then m ! v else map (\<lambda>_. Val 0) (m ! v))"
    if "v < length m" for v
  proof -
    from that len3 have "v < length (heap w3 ?a1)" by simp
    from zero_rejected_nth [OF this, of sel "[0..<length m]"] that
    show ?thesis by (simp add: heap5 w4_def w3)
  qed
  have p4: "heap w5 b = heap w b" if "b \<noteq> ?a0 \<and> b \<noteq> ?a1" for b
    using that by (simp add: heap5 w4_def zero_rejected_other w3)
  from res self5 self4 p1 p2 p3 p4 show ?thesis by auto
qed

subsection \<open>The returned mask\<close>

text \<open>
  C3. When \<open>get_camera_indexes\<close> returns the views \<open>sel\<close>, \<open>get_selection_mask\<close> returns a
  mask of the shape of the normalised input mask \<open>m\<close>; every view that is not in \<open>sel\<close> holds
  only zeros, and every view in \<open>sel\<close> holds the entries of \<open>m\<close> unchanged.
\<close>

theorem get_selection_mask_zeroes_rejected_views:
  assumes prep: "prepare_triangulate_input (length pts0) pts0 mask0 = Inr (pts, m)"
    and sel: "fst (get_camera_indexes ap pts0 mask0 w) = Inr sel"
  shows "\<exists>r. returned_mask (get_selection_mask ap pts0 mask0 w) = Inr r \<and>
             map length r = map length m \<and>
             (\<forall>v<length m. v \<notin> set sel \<longrightarrow> r ! v = replicate (length (m ! v)) (Val 0)) \<and>
             (\<forall>v<length m. v \<in> set sel \<longrightarrow> r ! v = m ! v)"
proof -
  from get_selection_mask_returns [OF prep sel]
  obtain w' where res: "get_selection_mask ap pts0 mask0 w = (Inr (Suc (next_addr w)), w')"
    and len: "length (heap w' (Suc (next_addr w))) = length m"
    and rows: "\<And>v. v < length m \<Longrightarrow> heap w' (Suc (next_addr w)) ! v =
                 (if v \<in> set sel then m ! v else map (\<lambda>_. Val 0) (m ! v))"
    by blast
  let ?r = "heap w' (Suc (next_addr w))"
  have "returned_mask (get_selection_mask ap pts0 mask0 w) = Inr ?r"
    by (simp add: res)
  moreover have "map length ?r = map length m"
    by (rule nth_equalityI) (simp_all add: len rows)
  moreover have "\<forall>v<length m. v \<notin> set sel \<longrightarrow> ?r ! v = replicate (length (m ! v)) (Val 0)"
    by (simp add: rows map_replicate_const)
  moreover have "\<forall>v<length m. v \<in> set sel \<longrightarrow> ?r ! v = m ! v"
    by (simp add: rows)
  ultimately show ?thesis by blast
qed

theorem get_selection_mask_zeroes_rejected_views_witness:
  "\<exists>r. returned_mask (get_selection_mask argpartition_by_sort
            [[pt 1, pt 1], [pt 1, pt 2], [pt 1, pt 9]] None (example_world 2 True)) = Inr r \<and>
       r ! 2 = [Val 0, Val 0] \<and> r ! 0 = [Val 1, Val 1]"
proof -
  let ?P = "[[pt 1, pt 1], [pt 1, pt 2], [pt 1, pt 9]]"
  let ?M = "[[Val 1, Val 1], [Val 1, Val 1], [Val 1, Val 1]]"
  have h1: "prepare_triangulate_input (length ?P) ?P None = Inr (?P, ?M)"
    by (simp add: prepare_triangulate_input_def)
  have h2: "fst (get_camera_indexes argpartition_by_sort ?P None (example_world 2 True)) =
      Inr [0, 1]"
    by code_simp
  from get_selection_mask_zeroes_rejected_views [OF h1 h2]
  obtain r where r: "returned_mask (get_selection_mask argpartition_by_sort ?P None
      (example_world 2 True)) = Inr r"
    and z: "\<forall>v<length ?M. v \<notin> set [0, 1::nat] \<longrightarrow> r ! v = replicate (length (?M ! v)) (Val 0)"
    and k: "\<forall>v<length ?M. v \<in> set [0, 1::nat] \<longrightarrow> r ! v = ?M ! v"
    by blast
  from z [rule_format, of 2] have "r ! 2 = [Val 0, Val 0]" by simp
  moreover from k [rule_format, of 0] have "r ! 0 = [Val 1, Val 1]" by simp
  ultimately show ?thesis using r by blast
qed

subsection \<open>The normalised mask is not written\<close>

text \<open>
  C9. \<open>get_selection_mask\<close> works on a copy: after the call, whether it returned or raised,
  the array that holds the normalised mask (at the address \<open>next_addr w\<close>) still holds the
  normalised mask \<open>m\<close>, and the array returned is another one.
\<close>

theorem get_selection_mask_keeps_normalised_mask:
  assumes prep: "prepare_triangulate_input (length pts0) pts0 mask0 = Inr (pts, m)"
  shows "heap (snd (get_selection_mask ap pts0 mask0 w)) (next_addr w) = m \<and>
         (\<forall>a. fst (get_selection_mask ap pts0 mask0 w) = Inr a \<longrightarrow> a \<noteq> next_addr w)"
proof (cases "fst (get_camera_indexes ap pts0 mask0 w)")
  case (Inl e)
  from get_selection_mask_raises [OF prep Inl] show ?thesis by auto
next
  case (Inr sel)
  from get_selection_mask_returns [OF prep Inr] show ?thesis by auto
qed

theorem get_selection_mask_keeps_normalised_mask_witness:
  "heap (snd (get_selection_mask argpartition_by_sort
            [[pt 1, pt 1], [pt 1, pt 2], [pt 1, pt 9]] None (example_world 2 False))) 0 =
     [[Val 1, Val 1], [Val 1, Val 1], [Val 1, Val 1]] \<and>
   returned_mask (get_selection_mask argpartition_by_sort
            [[pt 1, pt 1], [pt 1, pt 2], [pt 1, pt 9]] None (example_world 2 False)) =
     Inr [[Val 1, Val 1], [Val 1, Val 1], [Val 0, Val 0]]"
proof -
  let ?P = "[[pt 1, pt 1], [pt 1, pt 2], [pt 1, pt 9]]"
  let ?M = "[[Val 1, Val 1], [Val 1, Val 1], [Val 1, Val 1]]"
  have h1: "prepare_triangulate_input (length ?P) ?P None = Inr (?P, ?M)"
    by (simp add: prepare_triangulate_input_def)
  have a: "next_addr (example_world 2 False) = 0" by (simp add: example_world_def)
  from get_selection_mask_keeps_normalised_mask [OF h1, of argpartition_by_sort "example_world 2 False"]
  have "heap (snd (get_selection_mask argpartition_by_sort ?P None (example_world 2 False))) 0 = ?M"
    by (simp add: a)
  moreover have "returned_mask (get_selection_mask argpartition_by_sort ?P None
      (example_world 2 False)) = Inr [[Val 1, Val 1], [Val 1, Val 1], [Val 0, Val 0]]"
    by code_simp
  ultimately show ?thesis by blast
qed

subsection \<open>Determinism\<close>

text \<open>
  C7. The outputs of \<open>get_camera_indexes\<close> and \<open>get_selection_mask\<close> depend on the inputs and
  on the selector object only: in two worlds with the same selector (whatever their heaps
  and traces, so also before and after an earlier call) they return the same indexes and the
  same mask, and neither call changes the selector object.
\<close>

theorem selection_is_deterministic:
  assumes same: "self w1 = self w2"
  shows "fst (get_camera_indexes ap pts0 mask0 w1) = fst (get_camera_indexes ap pts0 mask0 w2) \<and>
         returned_mask (get_selection_mask ap pts0 mask0 w1) =
           returned_mask (get_selection_mask ap pts0 mask0 w2) \<and>
         self (snd (get_camera_indexes ap pts0 mask0 w1)) = self w1 \<and>
         self (snd (get_selection_mask ap pts0 mask0 w1)) = self w1"
proof -
  have idx: "fst (get_camera_indexes ap pts0 mask0 w1) = fst (get_camera_indexes ap pts0 mask0 w2)"
    by (rule get_camera_indexes_fst_indep [OF same])
  have frame: "self (snd (get_camera_indexes ap pts0 mask0 w1)) = self w1"
    by (simp add: get_camera_indexes_frame)
  have msk: "returned_mask (get_selection_mask ap pts0 mask0 w1) =
        returned_mask (get_selection_mask ap pts0 mask0 w2) \<and>
      self (snd (get_selection_mask ap pts0 mask0 w1)) = self w1"
  proof (cases "prepare_triangulate_input (length pts0) pts0 mask0")
    case (Inl e)
    then show ?thesis by (simp add: get_selection_mask_prepare_raises)
  next
    case (Inr pm)
    obtain pts m where "pm = (pts, m)" by (cases pm)
    with Inr have prep: "prepare_triangulate_input (length pts0) pts0 mask0 = Inr (pts, m)"
      by simp
    show ?thesis
    proof (cases "fst (get_camera_indexes ap pts0 mask0 w1)")
      case (Inl e)
      with idx have e2: "fst (get_camera_indexes ap pts0 mask0 w2) = Inl e" by simp
      from get_selection_mask_raises [OF prep Inl] get_selection_mask_raises [OF prep e2]
      show ?thesis by auto
    next
      case (Inr sel)
      with idx have s2: "fst (get_camera_indexes ap pts0 mask0 w2) = Inr sel" by simp
      from get_selection_mask_returns [OF prep Inr]
      obtain u1 where r1: "get_selection_mask ap pts0 mask0 w1 = (Inr (Suc (next_addr w1)), u1)"
        and self1: "self u1 = self w1"
        and len1: "length (heap u1 (Suc (next_addr w1))) = length m"
        and rows1: "\<And>v. v < length m \<Longrightarrow> heap u1 (Suc (next_addr w1)) ! v =
                 (if v \<in> set sel then m ! v else map (\<lambda>_. Val 0) (m ! v))"
        by blast
      from get_selection_mask_returns [OF prep s2]
      obtain u2 where r2: "get_selection_mask ap pts0 mask0 w2 = (Inr (Suc (next_addr w2)), u2)"
        and len2: "length (heap u2 (Suc (next_addr w2))) = length m"
        and rows2: "\<And>v. v < length m \<Longrightarrow> heap u2 (Suc (next_addr w2)) ! v =
                 (if v \<in> set sel then m ! v else map (\<lambda>_. Val 0) (m ! v))"
        by blast
      have "heap u1 (Suc (next_addr w1)) = heap u2 (Suc (next_addr w2))"
        by (rule nth_equalityI) (simp_all add: len1 len2 rows1 rows2)
      with r1 r2 self1 show ?thesis by simp
    qed
  qed
  from idx frame msk show ?thesis by blast
qed

theorem selection_is_deterministic_witness:
  "fst (get_camera_indexes argpartition_by_sort [[pt 1], [pt 5], [pt 2]] None
          (example_world 2 True)) =
   fst (get_camera_indexes argpartition_by_sort [[pt 1], [pt 5], [pt 2]] None
          (snd (get_selection_mask argpartition_by_sort [[pt 1], [pt 5], [pt 2]] None
                  (example_world 2 True)))) \<and>
   returned_mask (get_selection_mask argpartition_by_sort [[pt 1], [pt 5], [pt 2]] None
          (example_world 2 True)) =
   returned_mask (get_selection_mask argpartition_by_sort [[pt 1], [pt 5], [pt 2]] None
          (snd (get_selection_mask argpartition_by_sort [[pt 1], [pt 5], [pt 2]] None
                  (example_world 2 True))))"
proof -
  let ?P = "[[pt 1], [pt 5], [pt 2]]"
  let ?W = "example_world 2 True"
  let ?W' = "snd (get_selection_mask argpartition_by_sort ?P None ?W)"
  have h0: "self ?W = self ?W" by (rule refl)
  from selection_is_deterministic [OF h0, of argpartition_by_sort ?P None]
  have "self ?W' = self ?W" by blast
  then have h: "self ?W = self ?W'" by (rule sym)
  from selection_is_deterministic [OF h, of argpartition_by_sort ?P None]
  show ?thesis by blast
qed

subsection \<open>NaN entries\<close>

lemma fl_values_append: "fl_values (xs @ ys) = fl_values xs @ fl_values ys"
  by (induction xs rule: fl_values.induct) simp_all

lemma nanmean_row_skips_nan:
  assumes "k < length xs" and "xs ! k = NaN"
  shows "nanmean_row (map fl_abs xs) = nanmean_row (map fl_abs (take k xs @ drop (Suc k) xs))"
proof -
  from assms have "xs = take k xs @ NaN # drop (Suc k) xs"
    by (metis id_take_nth_drop)
  then have "map fl_abs xs = map fl_abs (take k xs) @ NaN # map fl_abs (drop (Suc k) xs)"
    by (metis fl_abs.simps(1) list.simps(9) map_append)
  then have "fl_values (map fl_abs xs) = fl_values (map fl_abs (take k xs @ drop (Suc k) xs))"
    by (simp add: fl_values_append)
  then show ?thesis by (simp add: nanmean_row_def)
qed

lemma fl_less_irrefl: "\<not> fl_less x x"
  by (cases x) simp_all

text \<open>
  C6, as the code has it. Let the mask hold NaN at entry \<open>(v, k)\<close> and let the service, as its
  contract says, answer with an error tensor of the mask's shape that is NaN at that entry.
  Then the entry takes no part in the mean error of view \<open>v\<close> (the mean is the one of the row
  without it), and in the mask \<open>get_selection_mask\<close> returns the entry is still NaN when view
  \<open>v\<close> is selected; when view \<open>v\<close> is rejected the entry is 0, as every entry of that view.
\<close>

theorem nan_entry_in_mean_and_returned_mask:
  assumes prep: "prepare_triangulate_input (length pts0) pts0 mask0 = Inr (pts, m)"
    and v: "v < length m" and k: "k < length (m ! v)"
    and nan: "m ! v ! k = NaN"
    and shape: "error_matches_mask (self w) pts m"
    and svc: "reprojection_error (self w) pts m ! v ! k = NaN"
    and sel: "fst (get_camera_indexes ap pts0 mask0 w) = Inr sel"
  shows "\<exists>means r.
           mean_errors (self w) pts m = Inr means \<and>
           means ! v =
             nanmean_row (map fl_abs (take k (reprojection_error (self w) pts m ! v) @
                                      drop (Suc k) (reprojection_error (self w) pts m ! v))) \<and>
           returned_mask (get_selection_mask ap pts0 mask0 w) = Inr r \<and>
           r ! v ! k = (if v \<in> set sel then NaN else Val 0)"
proof -
  let ?err = "reprojection_error (self w) pts m"
  let ?means = "map (\<lambda>row. nanmean_row (map fl_abs row)) ?err"
  from v have ne: "m \<noteq> []" by auto
  have means: "mean_errors (self w) pts m = Inr ?means"
    by (rule mean_errors_Inr [OF prep shape ne])
  from shape have ml: "map length ?err = map length m" by (simp add: error_matches_mask_def)
  then have len: "length ?err = length m" by (rule map_eq_imp_length_eq)
  from ml v len have "length (?err ! v) = length (m ! v)"
    by (metis nth_map)
  with k have k': "k < length (?err ! v)" by simp
  from v len have "?means ! v = nanmean_row (map fl_abs (?err ! v))" by simp
  also have "\<dots> = nanmean_row (map fl_abs (take k (?err ! v) @ drop (Suc k) (?err ! v)))"
    by (rule nanmean_row_skips_nan [OF k' svc])
  finally have mean_v: "?means ! v =
      nanmean_row (map fl_abs (take k (?err ! v) @ drop (Suc k) (?err ! v)))" .
  from get_selection_mask_returns [OF prep sel]
  obtain w' where res: "get_selection_mask ap pts0 mask0 w = (Inr (Suc (next_addr w)), w')"
    and rows: "\<And>u. u < length m \<Longrightarrow> heap w' (Suc (next_addr w)) ! u =
                 (if u \<in> set sel then m ! u else map (\<lambda>_. Val 0) (m ! u))"
    by blast
  let ?r = "heap w' (Suc (next_addr w))"
  have ret: "returned_mask (get_selection_mask ap pts0 mask0 w) = Inr ?r" by (simp add: res)
  have "?r ! v ! k = (if v \<in> set sel then NaN else Val 0)"
    using rows [OF v] k nan by simp
  with means mean_v ret show ?thesis by blast
qed

theorem nan_entry_in_mean_and_returned_mask_witness:
  "\<exists>means r.
     mean_errors (self (example_world 2 True)) [[pt 1, pt 1], [pt 1, pt 2], [pt 1, pt 9]]
       [[NaN, Val 1], [Val 1, Val 1], [Val 1, Val 1]] = Inr means \<and>
     means ! 0 = Val 1 \<and>
     returned_mask (get_selection_mask argpartition_by_sort
        [[pt 1, pt 1], [pt 1, pt 2], [pt 1, pt 9]]
        (Some [[NaN, Val 1], [Val 1, Val 1], [Val 1, Val 1]]) (example_world 2 True)) = Inr r \<and>
     r ! 0 ! 0 = NaN"
proof -
  let ?P = "[[pt 1, pt 1], [pt 1, pt 2], [pt 1, pt 9]]"
  let ?M = "[[NaN, Val 1], [Val 1, Val 1], [Val 1, Val 1]]"
  let ?W = "example_world 2 True"
  have h1: "prepare_triangulate_input (length ?P) ?P (Some ?M) = Inr (?P, ?M)"
    by (simp add: prepare_triangulate_input_def)
  have h2: "0 < length ?M" by simp
  have h3: "0 < length (?M ! 0)" by simp
  have h4: "?M ! 0 ! 0 = NaN" by simp
  have err: "reprojection_error (self ?W) ?P ?M = [[NaN, Val 1], [Val 1, Val 2], [Val 1, Val 9]]"
    by (simp add: reprojection_error_def example_world_def example_selector_def
          example_triangulator_def example_error_def pt_def)
  have h5: "error_matches_mask (self ?W) ?P ?M"
    by (simp add: error_matches_mask_def err)
  have h6: "reprojection_error (self ?W) ?P ?M ! 0 ! 0 = NaN"
    by (simp add: err)
  have h7: "fst (get_camera_indexes argpartition_by_sort ?P (Some ?M) ?W) = Inr [0, 1]"
    by code_simp
  from nan_entry_in_mean_and_returned_mask [OF h1 h2 h3 h4 h5 h6 h7]
  show ?thesis by (simp add: err nanmean_row_def)
qed

text \<open>
  The claim C6 as it is written fails for a rejected view: with three views and two to keep,
  the third view has the largest mean error and is rejected; its mask row \<open>[NaN, 1]\<close> comes
  back as \<open>[0, 0]\<close>.
\<close>

theorem nan_of_rejected_view_becomes_zero:
  "[[Val 1, Val 1], [Val 1, Val 1], [NaN, Val 1]] ! 2 ! 0 = NaN \<and>
   returned_mask (get_selection_mask argpartition_by_sort
      [[pt 1, pt 1], [pt 1, pt 2], [pt 1, pt 9]]
      (Some [[Val 1, Val 1], [Val 1, Val 1], [NaN, Val 1]]) (example_world 2 True)) =
     Inr [[Val 1, Val 1], [Val 1, Val 1], [Val 0, Val 0]]"
  by code_simp

subsection \<open>The selected views\<close>

text \<open>
  With more than two views and a target number below the number of views, a call of
  \<open>get_camera_indexes\<close> returns: the indexes are strictly ascending, there are
  \<open>target_camera_number\<close> of them, each is a view index, and no selected view has a larger
  mean error (in numpy's order, NaN last) than a view that is not selected. So a view whose
  mean error is strictly below the one of some selected view, or strictly below the one of
  every view that is not selected, is selected.
\<close>

lemma get_camera_indexes_selects_smallest:
  assumes contract: "argpartition_contract ap"
    and prep: "prepare_triangulate_input (length pts0) pts0 mask0 = Inr (pts, m)"
    and shape: "error_matches_mask (self w) pts m"
    and n: "2 < length pts0"
    and k0: "0 \<le> target_camera_number (self w)"
    and kn: "target_camera_number (self w) < int (length pts0)"
  shows "\<exists>idxs means.
           fst (get_camera_indexes ap pts0 mask0 w) = Inr idxs \<and>
           mean_errors (self w) pts m = Inr means \<and>
           length means = length pts0 \<and>
           sorted_wrt (<) idxs \<and>
           length idxs = nat (target_camera_number (self w)) \<and>
           set idxs \<subseteq> {..<length pts0} \<and>
           (\<forall>i\<in>set idxs. \<forall>j<length pts0. j \<notin> set idxs \<longrightarrow> np_le (means ! i) (means ! j)) \<and>
           (\<forall>i<length pts0. (\<exists>s\<in>set idxs. fl_less (means ! i) (means ! s)) \<longrightarrow> i \<in> set idxs) \<and>
           (\<forall>i<length pts0. (\<forall>j<length pts0. j \<notin> set idxs \<longrightarrow> fl_less (means ! i) (means ! j))
              \<longrightarrow> i \<in> set idxs)"
proof -
  note len = prepare_Inr(5) [OF prep]
  from len n have n2: "length m \<noteq> 2" and ne: "m \<noteq> []" by auto
  let ?means = "map (\<lambda>row. nanmean_row (map fl_abs row)) (reprojection_error (self w) pts m)"
  have means: "mean_errors (self w) pts m = Inr ?means"
    by (rule mean_errors_Inr [OF prep shape ne])
  then have lm: "length ?means = length m"
    unfolding mean_errors_def by (rule mean_errors_of_length)
  with len have lp: "length ?means = length pts0" by simp
  from kn lp have kn': "target_camera_number (self w) < int (length ?means)" by simp
  from select_min_errors_top_k [OF contract k0 kn']
  obtain idxs where
    res: "select_min_errors ap (target_camera_number (self w)) [0..<length ?means] ?means = Inr idxs"
    and srt: "sorted_wrt (<) idxs"
    and li: "length idxs = nat (target_camera_number (self w))"
    and sub: "set idxs \<subseteq> {..<length ?means}"
    and top: "\<And>i j. i \<in> set idxs \<Longrightarrow> j < length ?means \<Longrightarrow> j \<notin> set idxs \<Longrightarrow>
                np_le (?means ! i) (?means ! j)"
    by blast
  have run: "fst (get_camera_indexes ap pts0 mask0 w) = Inr idxs"
    using res lm by (simp add: get_camera_indexes_search [OF prep n2] means)
  have mono1: "i \<in> set idxs"
    if "i < length pts0" "s \<in> set idxs" "fl_less (?means ! i) (?means ! s)" for i s
  proof (rule ccontr)
    assume "i \<notin> set idxs"
    with top [OF that(2)] that(1) lp have "np_le (?means ! s) (?means ! i)" by simp
    with fl_less_not_le [OF that(3)] show False by simp
  qed
  have mono2: "i \<in> set idxs"
    if "i < length pts0" "\<forall>j<length pts0. j \<notin> set idxs \<longrightarrow> fl_less (?means ! i) (?means ! j)"
    for i
  proof (rule ccontr)
    assume "i \<notin> set idxs"
    with that have "fl_less (?means ! i) (?means ! i)" by blast
    then show False by (simp add: fl_less_irrefl)
  qed
  from sub lp have sub': "set idxs \<subseteq> {..<length pts0}" by simp
  from top lp have top': "\<forall>i\<in>set idxs. \<forall>j<length pts0. j \<notin> set idxs \<longrightarrow>
      np_le (?means ! i) (?means ! j)"
    by simp
  from run means lp srt li sub' top' mono1 mono2 show ?thesis by blast
qed

text \<open>
  C1. The claim covers the inputs whose number of views equals the target number. There the
  call returns no set at all: with three views and three to keep, the three views of smallest
  mean error would be all of them, and the partition step raises.
\<close>

theorem get_camera_indexes_three_of_three_raises:
  "fst (get_camera_indexes argpartition_by_sort
          [[pt 1, pt 1], [pt 1, pt 2], [pt 1, pt 9]] None (example_world 3 True)) =
     Inl KthOutOfBounds"
  by code_simp

text \<open>
  C2. A valid input (\<open>n_view \<ge> target_camera_number \<ge> 2\<close>) for which no list is returned:
  four views and four to keep.
\<close>

theorem get_camera_indexes_four_of_four_raises:
  "fst (get_camera_indexes argpartition_by_sort
          [[pt 3], [pt 1], [pt 4], [pt 2]] None (example_world 4 True)) =
     Inl KthOutOfBounds"
  by code_simp

text \<open>Four views and two to keep: the views of mean error 1 and 2 are returned, and the
  lemma applies to this input.\<close>

lemma get_camera_indexes_selects_smallest_example:
  "fst (get_camera_indexes argpartition_by_sort
          [[pt 3], [pt 1], [pt 4], [pt 2]] None (example_world 2 True)) = Inr [1, 3]"
  by code_simp

lemma get_camera_indexes_selects_smallest_instance:
  "\<exists>idxs. fst (get_camera_indexes argpartition_by_sort
            [[pt 3], [pt 1], [pt 4], [pt 2]] None (example_world 2 True)) = Inr idxs \<and>
          sorted_wrt (<) idxs \<and> length idxs = 2"
proof -
  let ?P = "[[pt 3], [pt 1], [pt 4], [pt 2]]"
  let ?M = "[[Val 1], [Val 1], [Val 1], [Val 1]]"
  let ?W = "example_world 2 True"
  have h1: "prepare_triangulate_input (length ?P) ?P None = Inr (?P, ?M)"
    by (simp add: prepare_triangulate_input_def)
  have h2: "error_matches_mask (self ?W) ?P ?M"
    by (simp add: error_matches_mask_def reprojection_error_def example_world_def
          example_selector_def example_triangulator_def)
  have h3: "2 < length ?P" by simp
  have k: "target_camera_number (self ?W) = 2"
    by (simp add: example_world_def example_selector_def)
  have h4: "0 \<le> target_camera_number (self ?W)" by (simp add: k)
  have h5: "target_camera_number (self ?W) < int (length ?P)" by (simp add: k)
  from get_camera_indexes_selects_smallest [OF argpartition_by_sort_contract h1 h2 h3 h4 h5]
  show ?thesis by (auto simp: k)
qed

end
